theory Spec2Isabelle
  imports Complex_Main "HOL-Library.Stream"
begin

section \<open>Music evolver: theory tables, resolver, melody walk and driver\<close>

text \<open>
  A shallow embedding of \<^verbatim>\<open>music_evolver_streamlit_app.py\<close>. Python integers are
  \<open>int\<close>, strings are \<open>string\<close>, dictionaries are association lists read with
  \<open>map_of\<close> (the first binding of a key wins; no table below repeats a key), and
  every exception the code can raise is a value \<open>Inl e\<close> of a sum type.
\<close>

subsection \<open>Python primitives\<close>

datatype py_error = ValueError | IndexError

text \<open>\<^verbatim>\<open>xs[i]\<close> on a list: a negative index counts from the end, out of range raises.\<close>

definition py_getitem :: "'a list \<Rightarrow> int \<Rightarrow> py_error + 'a" where
  "py_getitem xs i =
     (if 0 \<le> i \<and> i < int (length xs) then Inr (xs ! nat i)
      else if i < 0 \<and> - int (length xs) \<le> i then Inr (xs ! nat (int (length xs) + i))
      else Inl IndexError)"

text \<open>\<^verbatim>\<open>xs.index(x)\<close>: the position of the first occurrence, ValueError when absent.\<close>

fun py_index :: "'a list \<Rightarrow> 'a \<Rightarrow> py_error + int" where
  "py_index [] x = Inl ValueError"
| "py_index (y # ys) x =
     (if y = x then Inr 0
      else case py_index ys x of Inl e \<Rightarrow> Inl e | Inr i \<Rightarrow> Inr (i + 1))"

text \<open>\<^verbatim>\<open>d.get(k, default)\<close> on a dictionary.\<close>

definition dict_get :: "('k \<times> 'v) list \<Rightarrow> 'k \<Rightarrow> 'v \<Rightarrow> 'v" where
  "dict_get d k dflt = (case map_of d k of Some v \<Rightarrow> v | None \<Rightarrow> dflt)"

subsection \<open>The process-wide random source\<close>

text \<open>
  The code draws from numpy's global generator. Its state is modelled as the infinite
  sequence of raw draws still to come, threaded through every function that draws:
  the argument \<open>g\<close> below is that global state at the time of the call, not a parameter
  of the Python function. \<^verbatim>\<open>np.random.choice(a)\<close> on a list picks a position below
  \<open>len(a)\<close> and raises ValueError on an empty list; every position is reachable by some
  raw draw, so quantifying over all sequences covers every run of the program.
\<close>

type_synonym rng = "nat stream"

definition np_random_choice :: "'a list \<Rightarrow> rng \<Rightarrow> py_error + ('a \<times> rng)" where
  "np_random_choice a g =
     (if a = [] then Inl ValueError
      else Inr (a ! (shd g mod length a), stl g))"

subsection \<open>Constant tables\<close>

definition GENRE_PROGRESSIONS :: "(string \<times> string list list) list" where
  "GENRE_PROGRESSIONS =
     [(''Pop'', [[''I'', ''V'', ''vi'', ''IV''], [''I'', ''vi'', ''IV'', ''V'']]),
      (''Jazz'', [[''ii'', ''V'', ''I'', ''vi'']]),
      (''Rock'', [[''I'', ''IV'', ''V'', ''I''], [''I'', ''bVII'', ''IV'', ''I'']]),
      (''Classical'', [[''I'', ''IV'', ''V'', ''I''],
                       [''I'', ''V'', ''vi'', ''iii'', ''IV'', ''I'']])]"

definition KEYS :: "string list" where
  "KEYS = [''C'', ''C#'', ''D'', ''D#'', ''E'', ''F'', ''F#'', ''G'', ''G#'', ''A'', ''A#'', ''B'']"

definition MODES :: "string list" where
  "MODES = [''Major'', ''Minor'']"

definition EMOTIONS :: "string list" where
  "EMOTIONS = [''Happy'', ''Sad'', ''Mysterious'', ''Excited'']"

subsection \<open>The library's note-name parser\<close>

text \<open>
  Modelled from the spec: \<^verbatim>\<open>pretty_midi.note_name_to_number\<close> is a function of the
  third-party library, absent from the repository. The spec calls it
  \<^verbatim>\<open>pitch_class_to_number(key, octave=4)\<close>, the MIDI-style absolute pitch number of a
  pitch-class name at a fixed octave. The model follows the library: the name must
  match \<^verbatim>\<open>^[A-Ga-g][#b!]?[+-]?\d+$\<close> (a final newline is tolerated by \<^verbatim>\<open>$\<close>), anything
  else raises ValueError, and the number is
  \<^verbatim>\<open>12*(octave + 1) + pitch_map[letter] + acc_map[accidental]\<close>, so that C4 is 60.
  Names are ASCII strings.
\<close>

definition pitch_map :: "(char \<times> int) list" where
  "pitch_map = [(CHR ''C'', 0), (CHR ''D'', 2), (CHR ''E'', 4), (CHR ''F'', 5),
                (CHR ''G'', 7), (CHR ''A'', 9), (CHR ''B'', 11)]"

definition acc_map :: "(string \<times> int) list" where
  "acc_map = [(''#'', 1), ('''', 0), (''b'', - 1), (''!'', - 1)]"

definition upper_letter :: "char \<Rightarrow> char" where
  "upper_letter c = dict_get (zip ''abcdefg'' ''ABCDEFG'') c c"

definition digit_value :: "char \<Rightarrow> int" where
  "digit_value c = dict_get (zip ''0123456789'' [0, 1, 2, 3, 4, 5, 6, 7, 8, 9]) c 0"

definition py_int :: "string \<Rightarrow> int" where
  "py_int s =
     (case s of
        [] \<Rightarrow> 0
      | c # r \<Rightarrow>
          if c = CHR ''-'' then - fold (\<lambda>d n. 10 * n + digit_value d) r 0
          else if c = CHR ''+'' then fold (\<lambda>d n. 10 * n + digit_value d) r 0
          else fold (\<lambda>d n. 10 * n + digit_value d) s 0)"

definition match_note_name :: "string \<Rightarrow> (char \<times> string \<times> string) option" where
  "match_note_name s =
     (case s of
        [] \<Rightarrow> None
      | n # r \<Rightarrow>
          if n \<notin> set ''ABCDEFGabcdefg'' then None
          else
            let (off, r1) = (case r of
                               [] \<Rightarrow> ([], r)
                             | c # r' \<Rightarrow> if c \<in> set ''#b!'' then ([c], r') else ([], r));
                (sgn, r2) = (case r1 of
                               [] \<Rightarrow> ([], r1)
                             | c # r' \<Rightarrow> if c \<in> set ''+-'' then ([c], r') else ([], r1));
                ds = (if r2 \<noteq> [] \<and> last r2 = CHR 0x0A then butlast r2 else r2)
            in if ds \<noteq> [] \<and> list_all (\<lambda>d. d \<in> set ''0123456789'') ds
               then Some (n, off, sgn @ ds) else None)"

definition note_name_to_number :: "string \<Rightarrow> py_error + int" where
  "note_name_to_number note_name =
     (case match_note_name note_name of
        None \<Rightarrow> Inl ValueError
      | Some (n, off, oct) \<Rightarrow>
          Inr (12 * (py_int oct + 1) + dict_get pitch_map (upper_letter n) 0
               + dict_get acc_map off 0))"

subsection \<open>Chords, tempo and scales\<close>

definition scale_degrees_major :: "(string \<times> int) list" where
  "scale_degrees_major =
     [(''I'', 0), (''ii'', 2), (''iii'', 4), (''IV'', 5), (''V'', 7), (''vi'', 9), (''bVII'', 10)]"

definition scale_degrees_minor :: "(string \<times> int) list" where
  "scale_degrees_minor =
     [(''i'', 0), (''ii'', 2), (''III'', 3), (''iv'', 5), (''v'', 7), (''VI'', 8), (''bVII'', 10)]"

definition chord_to_notes :: "string \<Rightarrow> string \<Rightarrow> string \<Rightarrow> py_error + int list" where
  "chord_to_notes chord key mode =
     (let (scale, intervals, root_pitch_r) =
            (if mode = ''Major''
             then (scale_degrees_major, [0, 4, 7], note_name_to_number (key @ ''4''))
             else (scale_degrees_minor, [0, 3, 7], note_name_to_number (key @ ''4'')))
      in case root_pitch_r of
           Inl e \<Rightarrow> Inl e
         | Inr root_pitch \<Rightarrow>
             let deg = (if map_of scale chord \<noteq> None then chord else ''I'');
                 root = (root_pitch + dict_get scale deg 0) mod 128
             in Inr (map (\<lambda>interval. root + interval) intervals))"

definition emotion_tempo :: "string \<Rightarrow> int" where
  "emotion_tempo emotion =
     dict_get [(''Happy'', 120), (''Sad'', 70), (''Mysterious'', 90), (''Excited'', 140)]
       emotion 100"

definition major_intervals :: "int list" where
  "major_intervals = [0, 2, 4, 5, 7, 9, 11]"

definition minor_intervals :: "int list" where
  "minor_intervals = [0, 2, 3, 5, 7, 8, 10]"

definition make_scale :: "string \<Rightarrow> string \<Rightarrow> py_error + int list" where
  "make_scale key mode =
     (case note_name_to_number (key @ ''4'') of
        Inl e \<Rightarrow> Inl e
      | Inr base \<Rightarrow>
          let intervals = (if mode = ''Major'' then major_intervals else minor_intervals)
          in Inr (map (\<lambda>i. (base + i) mod 128) intervals))"

subsection \<open>The melody walk\<close>

text \<open>
  One pass of the loop body of \<^verbatim>\<open>evolve_melody\<close> once the step is drawn: locate the
  cursor (position 0 when it is not in the scale), add the step, clamp, read the scale.
\<close>

definition walk_step :: "int list \<Rightarrow> int \<Rightarrow> int \<Rightarrow> py_error + int" where
  "walk_step scale_notes prev_note step =
     (case (if prev_note \<in> set scale_notes then py_index scale_notes prev_note else Inr 0) of
        Inl e \<Rightarrow> Inl e
      | Inr idx \<Rightarrow>
          let next_idx = min (max (idx + step) 0) (int (length scale_notes) - 1)
          in py_getitem scale_notes next_idx)"

fun evolve_loop :: "nat \<Rightarrow> int list \<Rightarrow> int \<Rightarrow> int list \<Rightarrow> rng \<Rightarrow> py_error + (int list \<times> rng)" where
  "evolve_loop 0 scale_notes prev_note melody g = Inr (melody, g)"
| "evolve_loop (Suc k) scale_notes prev_note melody g =
     (case np_random_choice [- 2, - 1, 0, 1, 2] g of
        Inl e \<Rightarrow> Inl e
      | Inr (step, g') \<Rightarrow>
          (case walk_step scale_notes prev_note step of
             Inl e \<Rightarrow> Inl e
           | Inr next_note \<Rightarrow> evolve_loop k scale_notes next_note (melody @ [next_note]) g'))"

text \<open>
  The parameter \<^verbatim>\<open>length\<close> is \<open>len\<close> here. \<^verbatim>\<open>range(length)\<close> runs \<open>nat len\<close> times: not
  at all when \<open>len \<le> 0\<close>.
\<close>

definition evolve_melody :: "int list \<Rightarrow> int list \<Rightarrow> int \<Rightarrow> rng \<Rightarrow> py_error + (int list \<times> rng)" where
  "evolve_melody prev scale_notes len g =
     (case (if prev \<noteq> [] then (case py_getitem prev (- 1) of
                                   Inl e \<Rightarrow> Inl e | Inr p \<Rightarrow> Inr (p, g))
            else np_random_choice scale_notes g) of
        Inl e \<Rightarrow> Inl e
      | Inr (prev_note, g') \<Rightarrow> evolve_loop (nat len) scale_notes prev_note [] g')"

subsection \<open>The composition driver\<close>

text \<open>
  Times are Python floats in the code; here they are rationals, so \<open>0.9\<close>, \<open>0.25\<close> and
  \<open>0.2\<close> are exact and the rounding of binary floating point is not modelled.
\<close>

text \<open>
  A \<^verbatim>\<open>pretty_midi.Note\<close> (its field \<^verbatim>\<open>end\<close> is \<open>end_time\<close> here) and the \<^verbatim>\<open>notes\<close> of an
  instrument (\<open>note_list\<close> here).
\<close>

datatype Note = Note (velocity: int) (pitch: int) (start: rat) (end_time: rat)

record Instrument =
  program :: int
  note_list :: "Note list"

record PrettyMIDI =
  initial_tempo :: int
  instruments :: "Instrument list"

text \<open>The local variables of \<^verbatim>\<open>generate_music\<close> that its loops update.\<close>

record gen_state =
  inst_notes :: "Note list"
  notes_plot :: "(rat \<times> int) list"
  time :: rat
  melody :: "int list"
  rng_state :: rng

definition chord_body :: "string \<Rightarrow> string \<Rightarrow> int list \<Rightarrow> gen_state \<Rightarrow> string \<Rightarrow> py_error + gen_state" where
  "chord_body key mode scale_notes st chord =
     (case chord_to_notes chord key mode of
        Inl e \<Rightarrow> Inl e
      | Inr chord_notes \<Rightarrow>
          let t = time st;
              with_chord = inst_notes st @ map (\<lambda>n. Note 70 n t (t + 9 / 10)) chord_notes
          in case evolve_melody (melody st) scale_notes 4 (rng_state st) of
               Inl e \<Rightarrow> Inl e
             | Inr (mel, g') \<Rightarrow>
                 Inr \<lparr>inst_notes = with_chord @
                        map (\<lambda>(idx, n). Note 100 n (t + of_nat idx * (1 / 4))
                                          (t + of_nat idx * (1 / 4) + 1 / 5))
                          (enumerate 0 mel),
                      notes_plot = notes_plot st @
                        map (\<lambda>(idx, n). (t + of_nat idx * (1 / 4), n)) (enumerate 0 mel),
                      time = t + 1,
                      melody = mel,
                      rng_state = g'\<rparr>)"

fun prog_loop :: "string \<Rightarrow> string \<Rightarrow> int list \<Rightarrow> string list \<Rightarrow> gen_state \<Rightarrow> py_error + gen_state" where
  "prog_loop key mode scale_notes [] st = Inr st"
| "prog_loop key mode scale_notes (chord # rest) st =
     (case chord_body key mode scale_notes st chord of
        Inl e \<Rightarrow> Inl e
      | Inr st' \<Rightarrow> prog_loop key mode scale_notes rest st')"

fun gen_loop :: "nat \<Rightarrow> string \<Rightarrow> string \<Rightarrow> int list \<Rightarrow> string list \<Rightarrow> gen_state \<Rightarrow> py_error + gen_state" where
  "gen_loop 0 key mode scale_notes chord_prog st = Inr st"
| "gen_loop (Suc k) key mode scale_notes chord_prog st =
     (case prog_loop key mode scale_notes chord_prog st of
        Inl e \<Rightarrow> Inl e
      | Inr st' \<Rightarrow> gen_loop k key mode scale_notes chord_prog st')"

text \<open>Line 72: the first variant of the genre's progressions, or of the default.\<close>

definition select_progression :: "string \<Rightarrow> py_error + string list" where
  "select_progression genre =
     py_getitem (dict_get GENRE_PROGRESSIONS genre [[''I'', ''IV'', ''V'', ''I'']]) 0"

text \<open>
  The result is the triple the function returns, paired with the random source as the
  call leaves it.
\<close>

definition generate_music ::
  "string \<Rightarrow> string \<Rightarrow> string \<Rightarrow> string \<Rightarrow> int \<Rightarrow> rng \<Rightarrow>
     py_error + ((PrettyMIDI \<times> (rat \<times> int) list \<times> int) \<times> rng)" where
  "generate_music genre key mode emotion generations g =
     (let tempo = emotion_tempo emotion
      in case make_scale key mode of
           Inl e \<Rightarrow> Inl e
         | Inr scale_notes \<Rightarrow>
             (case select_progression genre of
                Inl e \<Rightarrow> Inl e
              | Inr chord_prog \<Rightarrow>
                  (case np_random_choice scale_notes g of
                     Inl e \<Rightarrow> Inl e
                   | Inr (seed, g1) \<Rightarrow>
                       (case gen_loop (nat generations) key mode scale_notes chord_prog
                               \<lparr>inst_notes = [], notes_plot = [], time = 0,
                                melody = [seed], rng_state = g1\<rparr> of
                          Inl e \<Rightarrow> Inl e
                        | Inr st \<Rightarrow>
                            Inr ((\<lparr>initial_tempo = tempo,
                                   instruments = [\<lparr>program = 0, note_list = inst_notes st\<rparr>]\<rparr>,
                                  notes_plot st, tempo),
                                 rng_state st)))))"

subsection \<open>Notions used in the statements\<close>

text \<open>Two driver states that agree on everything but the random source.\<close>

definition same_output :: "gen_state \<Rightarrow> gen_state \<Rightarrow> bool" where
  "same_output a b \<longleftrightarrow>
     inst_notes a = inst_notes b \<and> notes_plot a = notes_plot b \<and> time a = time b \<and>
     melody a = melody b"

text \<open>The pitches of the chord notes of a note list: the notes of velocity 70.\<close>

definition chord_pitches :: "Note list \<Rightarrow> int list" where
  "chord_pitches ns = map pitch (filter (\<lambda>n. velocity n = 70) ns)"

text \<open>Notes listed by non-decreasing start time, all starting in \<open>[lo, hi)\<close>.\<close>

definition chronological :: "rat \<Rightarrow> rat \<Rightarrow> Note list \<Rightarrow> bool" where
  "chronological lo hi ns \<longleftrightarrow>
     sorted (map start ns) \<and> (\<forall>n \<in> set ns. lo \<le> start n \<and> start n < hi)"

section \<open>Properties\<close>

subsection \<open>Evaluating the tables and the parser\<close>

lemmas parser_defs = note_name_to_number_def match_note_name_def py_int_def digit_value_def
  upper_letter_def dict_get_def pitch_map_def acc_map_def

lemma note_numbers_KEYS:
  "map (\<lambda>k. note_name_to_number (k @ ''4'')) KEYS =
     map Inr [60, 61, 62, 63, 64, 65, 66, 67, 68, 69, 70, 71]"
  by (simp add: KEYS_def parser_defs)

lemma note_number_KEYS:
  assumes "key \<in> set KEYS"
  shows "\<exists>base. note_name_to_number (key @ ''4'') = Inr base \<and> 60 \<le> base \<and> base \<le> 71"
proof -
  have "note_name_to_number (key @ ''4'') \<in> set (map (\<lambda>k. note_name_to_number (k @ ''4'')) KEYS)"
    using assms by simp
  then show ?thesis
    unfolding note_numbers_KEYS by auto
qed

lemma py_index_mem:
  "x \<in> set xs \<Longrightarrow> \<exists>i. py_index xs x = Inr i \<and> 0 \<le> i \<and> i < int (length xs)"
  by (induction xs) auto

lemma py_index_Inr:
  "py_index xs x = Inr i \<Longrightarrow> x \<in> set xs \<and> 0 \<le> i \<and> i < int (length xs) \<and> xs ! nat i = x"
proof (induction xs arbitrary: i)
  case Nil
  then show ?case by simp
next
  case (Cons y ys)
  show ?case
  proof (cases "y = x")
    case True
    with Cons.prems show ?thesis by simp
  next
    case False
    with Cons.prems obtain j where j: "py_index ys x = Inr j" "i = j + 1"
      by (auto split: sum.splits)
    from Cons.IH[OF j(1)] have "x \<in> set ys" "0 \<le> j" "j < int (length ys)" "ys ! nat j = x"
      by simp_all
    then show ?thesis using j(2) by (simp add: nat_add_distrib)
  qed
qed

lemma py_getitem_in_range:
  "0 \<le> j \<Longrightarrow> j < int (length xs) \<Longrightarrow> py_getitem xs j = Inr (xs ! nat j)"
  by (simp add: py_getitem_def Let_def)

lemma py_getitem_last: "xs \<noteq> [] \<Longrightarrow> py_getitem xs (- 1) = Inr (last xs)"
  by (cases xs rule: rev_cases) (simp_all add: py_getitem_def Let_def nth_append)

lemma walk_step_ok:
  assumes "scale \<noteq> []"
  shows "\<exists>p. walk_step scale c step = Inr p \<and> p \<in> set scale"
proof -
  obtain idx where idx:
    "(if c \<in> set scale then py_index scale c else Inr 0) = Inr idx" "0 \<le> idx"
    using py_index_mem[of c scale] by (cases "c \<in> set scale") auto
  define j where "j = min (max (idx + step) 0) (int (length scale) - 1)"
  have j: "0 \<le> j" "j < int (length scale)"
    using assms by (auto simp: j_def)
  then have "py_getitem scale j = Inr (scale ! nat j)" "scale ! nat j \<in> set scale"
    by (simp_all add: py_getitem_in_range)
  then show ?thesis
    using idx(1) by (simp add: walk_step_def Let_def j_def)
qed

lemma evolve_loop_ok:
  "scale \<noteq> [] \<Longrightarrow>
     \<exists>m. evolve_loop k scale c acc g = Inr (acc @ m, sdrop k g) \<and> length m = k \<and> set m \<subseteq> set scale"
proof (induction k arbitrary: c acc g)
  case 0
  show ?case by simp
next
  case (Suc k)
  define step :: int where "step = [- 2, - 1, 0, 1, 2] ! (shd g mod 5)"
  have ch: "np_random_choice [- 2, - 1, 0, 1, 2::int] g = Inr (step, stl g)"
    by (simp add: np_random_choice_def step_def)
  obtain p where p: "walk_step scale c step = Inr p" "p \<in> set scale"
    using walk_step_ok[OF Suc.prems] by blast
  obtain m where m:
    "evolve_loop k scale p (acc @ [p]) (stl g) = Inr ((acc @ [p]) @ m, sdrop k (stl g))"
    "length m = k" "set m \<subseteq> set scale"
    using Suc.IH[OF Suc.prems] by blast
  have "evolve_loop (Suc k) scale c acc g = Inr (acc @ (p # m), sdrop (Suc k) g)"
    using ch p(1) m(1) by simp
  moreover have "length (p # m) = Suc k" "set (p # m) \<subseteq> set scale"
    using p(2) m(2,3) by simp_all
  ultimately show ?case by blast
qed

lemma evolve_melody_ok:
  assumes "scale \<noteq> []"
  shows "\<exists>m. evolve_melody prev scale len g =
               Inr (m, sdrop (nat len) (if prev \<noteq> [] then g else stl g))
             \<and> length m = nat len \<and> set m \<subseteq> set scale"
proof (cases "prev = []")
  case True
  have "np_random_choice scale g = Inr (scale ! (shd g mod length scale), stl g)"
    using assms by (simp add: np_random_choice_def)
  with evolve_loop_ok[OF assms, of "nat len" "scale ! (shd g mod length scale)" "[]" "stl g"] True
  show ?thesis by (auto simp: evolve_melody_def)
next
  case False
  with evolve_loop_ok[OF assms, of "nat len" "last prev" "[]" g]
  show ?thesis by (auto simp: evolve_melody_def py_getitem_last)
qed

text \<open>
  Claim C1. On a non-empty scale, \<^verbatim>\<open>evolve_melody(prev, scale, L)\<close> returns, for every
  previous melody and every state of the random source, a melody of exactly \<open>L\<close>
  pitches (\<open>nat L\<close>, which is \<open>L\<close> for every \<open>L \<ge> 0\<close>), each an element of the scale.
\<close>

theorem evolve_melody_length_and_scale:
  assumes "scale \<noteq> []"
  shows "\<exists>m g'. evolve_melody prev scale len g = Inr (m, g')
                \<and> length m = nat len \<and> (0 \<le> len \<longrightarrow> int (length m) = len)
                \<and> (\<forall>p \<in> set m. p \<in> set scale)"
  using evolve_melody_ok[OF assms, of prev len g] by auto

theorem evolve_melody_length_and_scale_witness:
  "[60, 62, 64] \<noteq> ([]::int list) \<and>
   evolve_melody [] [60, 62, 64] 3 (sconst 4) = Inr ([64, 64, 64], sconst 4)"
proof -
  have three: "nat 3 = Suc (Suc (Suc 0))" by simp
  show ?thesis
    using evolve_melody_length_and_scale [of "[60, 62, 64]" "[]" 3 "sconst 4"]
    unfolding evolve_melody_def three
    by (simp add: np_random_choice_def walk_step_def py_getitem_def Let_def)
qed

lemma walk_step_top:
  assumes "scale \<noteq> []"
    and "(if cursor \<in> set scale then py_index scale cursor else Inr 0) = Inr idx"
    and "idx = int (length scale) - 1" and "0 < step"
  shows "walk_step scale cursor step = Inr (last scale)"
proof -
  have "min (max (idx + step) 0) (int (length scale) - 1) = int (length scale) - 1"
    using assms(3,4) by simp
  moreover have "py_getitem scale (int (length scale) - 1) = Inr (last scale)"
    using assms(1) by (simp add: py_getitem_def Let_def last_conv_nth nat_diff_distrib')
  ultimately show ?thesis
    using assms(2) by (simp add: walk_step_def Let_def)
qed

lemma walk_step_bottom:
  assumes "scale \<noteq> []"
    and "(if cursor \<in> set scale then py_index scale cursor else Inr 0) = Inr idx"
    and "idx = 0" and "step < 0"
  shows "walk_step scale cursor step = Inr (hd scale)"
proof -
  have "min (max (idx + step) 0) (int (length scale) - 1) = 0"
    using assms(1,3,4) by simp
  moreover have "py_getitem scale 0 = Inr (hd scale)"
    using assms(1) by (simp add: py_getitem_def Let_def hd_conv_nth)
  ultimately show ?thesis
    using assms(2) by (simp add: walk_step_def Let_def)
qed

lemma evolve_loop_emits_first:
  assumes "scale \<noteq> []"
    and "np_random_choice [- 2, - 1, 0, 1, 2] g = Inr (step, g')"
    and "walk_step scale cursor step = Inr p"
  shows "\<exists>m g''. evolve_loop (Suc k) scale cursor acc g = Inr (acc @ p # m, g'')"
proof -
  obtain m where "evolve_loop k scale p (acc @ [p]) g' = Inr ((acc @ [p]) @ m, sdrop k g')"
    using evolve_loop_ok[OF assms(1)] by blast
  then have "evolve_loop (Suc k) scale cursor acc g = Inr (acc @ p # m, sdrop k g')"
    using assms(2,3) by simp
  then show ?thesis by blast
qed

lemma py_index_hd: "xs \<noteq> [] \<Longrightarrow> py_index xs (hd xs) = Inr 0"
  by (cases xs) simp_all

lemma py_index_last_distinct:
  "distinct xs \<Longrightarrow> xs \<noteq> [] \<Longrightarrow> py_index xs (last xs) = Inr (int (length xs) - 1)"
proof (induction xs)
  case Nil
  then show ?case by simp
next
  case (Cons y ys)
  show ?case
  proof (cases "ys = []")
    case True
    then show ?thesis by simp
  next
    case False
    then have "last ys \<in> set ys" by simp
    with Cons.prems have "y \<noteq> last ys" by auto
    moreover have "py_index ys (last ys) = Inr (int (length ys) - 1)"
      using Cons.IH Cons.prems False by simp
    ultimately show ?thesis using False by simp
  qed
qed

text \<open>
  Claim C2. Let \<open>idx\<close> be the position at which the loop body locates the cursor pitch
  (its first occurrence, or 0 when it is not in the scale) and \<open>step\<close> the step drawn.
  If \<open>idx\<close> is the last position and the step is positive, the pitch emitted next is the
  last scale pitch: the walk does not wrap to position 0. If \<open>idx\<close> is 0 and the step is
  negative, the pitch emitted next is the first scale pitch. Both are stated for the
  loop body and for the melody the loop goes on to return. A cursor equal to the first
  scale pitch is located at 0, and in a scale without repeated pitches (as every scale
  of \<^verbatim>\<open>make_scale\<close> is) a cursor equal to the last scale pitch is located at the last
  position.
\<close>

theorem walk_clamps_at_scale_ends:
  assumes "scale \<noteq> []"
    and "(if cursor \<in> set scale then py_index scale cursor else Inr 0) = Inr idx"
    and "np_random_choice [- 2, - 1, 0, 1, 2] g = Inr (step, g')"
  shows "(idx = int (length scale) - 1 \<and> 0 < step \<longrightarrow>
            walk_step scale cursor step = Inr (last scale) \<and>
            (\<exists>m g''. evolve_loop (Suc k) scale cursor acc g = Inr (acc @ last scale # m, g'')))
       \<and> (idx = 0 \<and> step < 0 \<longrightarrow>
            walk_step scale cursor step = Inr (hd scale) \<and>
            (\<exists>m g''. evolve_loop (Suc k) scale cursor acc g = Inr (acc @ hd scale # m, g'')))
       \<and> (distinct scale \<and> cursor = last scale \<longrightarrow> idx = int (length scale) - 1)
       \<and> (cursor = hd scale \<longrightarrow> idx = 0)"
proof -
  have "distinct scale \<and> cursor = last scale \<longrightarrow> idx = int (length scale) - 1"
    using assms(1,2) py_index_last_distinct[of scale] by auto
  moreover have "cursor = hd scale \<longrightarrow> idx = 0"
    using assms(1,2) py_index_hd[of scale] by auto
  ultimately show ?thesis
    using walk_step_top[OF assms(1,2)] walk_step_bottom[OF assms(1,2)]
      evolve_loop_emits_first[OF assms(1,3)]
    by auto
qed

theorem walk_clamps_at_scale_ends_witness:
  "[60, 62, 64] \<noteq> ([]::int list) \<and>
   (if 64 \<in> set [60, 62, 64::int] then py_index [60, 62, 64::int] 64 else Inr 0) = Inr 2 \<and>
   np_random_choice [- 2, - 1, 0, 1, 2] (sconst 4) = Inr (2::int, sconst 4) \<and>
   walk_step [60, 62, 64] 64 2 = Inr 64 \<and>
   evolve_loop (Suc 0) [60, 62, 64] 64 [62] (sconst 4) = Inr ([62, 64], sconst 4) \<and>
   (if 60 \<in> set [60, 62, 64::int] then py_index [60, 62, 64::int] 60 else Inr 0) = Inr 0 \<and>
   np_random_choice [- 2, - 1, 0, 1, 2] (sconst 0) = Inr (- 2::int, sconst 0) \<and>
   walk_step [60, 62, 64] 60 (- 2) = Inr 60 \<and>
   evolve_loop (Suc 0) [60, 62, 64] 60 [62] (sconst 0) = Inr ([62, 60], sconst 0)"
  using walk_clamps_at_scale_ends [of "[60, 62, 64]" 64 2 "sconst 4" 2 "sconst 4" 0 "[62]"]
    walk_clamps_at_scale_ends [of "[60, 62, 64]" 60 0 "sconst 0" "- 2" "sconst 0" 0 "[62]"]
  by (simp add: np_random_choice_def walk_step_def py_getitem_def Let_def)

text \<open>
  Claim C3. \<^verbatim>\<open>make_scale\<close> returns for each of the twelve keys, and whenever it returns
  the result has exactly 7 pitches, each in \<open>[0, 127]\<close>, namely the tonic at octave 4
  plus the intervals of the mode, reduced modulo 128, in degree order. It reads no
  state and draws nothing, so it is a function of key and mode alone.
\<close>

theorem make_scale_seven_pitches:
  "(key \<in> set KEYS \<longrightarrow> (\<exists>ps. make_scale key mode = Inr ps))
   \<and> (\<forall>ps. make_scale key mode = Inr ps \<longrightarrow>
         length ps = 7 \<and> (\<forall>p \<in> set ps. 0 \<le> p \<and> p \<le> 127) \<and>
         (\<exists>tonic. note_name_to_number (key @ ''4'') = Inr tonic \<and>
            ps = map (\<lambda>i. (tonic + i) mod 128)
                   (if mode = ''Major'' then [0, 2, 4, 5, 7, 9, 11]
                    else [0, 2, 3, 5, 7, 8, 10])))"
proof (intro conjI impI allI)
  assume "key \<in> set KEYS"
  then show "\<exists>ps. make_scale key mode = Inr ps"
    using note_number_KEYS[of key] by (auto simp: make_scale_def)
next
  fix ps assume ps: "make_scale key mode = Inr ps"
  then obtain tonic where t: "note_name_to_number (key @ ''4'') = Inr tonic"
    by (auto simp: make_scale_def split: sum.splits)
  with ps have eq: "ps = map (\<lambda>i. (tonic + i) mod 128)
                   (if mode = ''Major'' then [0, 2, 4, 5, 7, 9, 11]
                    else [0, 2, 3, 5, 7, 8, 10])"
    by (auto simp: make_scale_def major_intervals_def minor_intervals_def)
  show "length ps = 7" using eq by simp
  show "\<forall>p \<in> set ps. 0 \<le> p \<and> p \<le> 127" using eq by auto
  show "\<exists>tonic. note_name_to_number (key @ ''4'') = Inr tonic \<and>
            ps = map (\<lambda>i. (tonic + i) mod 128)
                   (if mode = ''Major'' then [0, 2, 4, 5, 7, 9, 11]
                    else [0, 2, 3, 5, 7, 8, 10])"
    using t eq by blast
qed

theorem make_scale_seven_pitches_witness:
  "''C'' \<in> set KEYS \<and> make_scale ''C'' ''Major'' = Inr [60, 62, 64, 65, 67, 69, 71] \<and>
   length [60, 62, 64, 65, 67, 69, 71::int] = 7"
proof -
  have k: "''C'' \<in> set KEYS"
    by (simp add: KEYS_def)
  have v: "make_scale ''C'' ''Major'' = Inr [60, 62, 64, 65, 67, 69, 71]"
    by (simp add: make_scale_def parser_defs major_intervals_def)
  from make_scale_seven_pitches [of "''C''" "''Major''"] v
  have "length [60, 62, 64, 65, 67, 69, 71::int] = 7"
    by blast
  with k v show ?thesis by blast
qed

lemma chord_to_notes_KEYS:
  assumes "key \<in> set KEYS"
  shows "\<exists>r. chord_to_notes chord key mode =
               Inr [r, r + (if mode = ''Major'' then 4 else 3), r + 7]"
proof -
  obtain base where "note_name_to_number (key @ ''4'') = Inr base"
    using note_number_KEYS[OF assms] by blast
  then show ?thesis
    by (simp add: chord_to_notes_def Let_def)
qed

text \<open>
  Claim C4. A chord symbol that is not in the degree table of the mode resolves as the
  tonic chord does: as \<^verbatim>\<open>"I"\<close> in Major and as \<^verbatim>\<open>"i"\<close> in Minor (every mode other than
  \<^verbatim>\<open>"Major"\<close>), for every key; and for each of the twelve keys the call returns a triad
  for every symbol, known or not.
\<close>

theorem chord_to_notes_unknown_symbol:
  "(map_of scale_degrees_major chord = None \<longrightarrow>
      chord_to_notes chord key ''Major'' = chord_to_notes ''I'' key ''Major'')
   \<and> (mode \<noteq> ''Major'' \<and> map_of scale_degrees_minor chord = None \<longrightarrow>
      chord_to_notes chord key mode = chord_to_notes ''i'' key mode)
   \<and> (key \<in> set KEYS \<longrightarrow>
      (\<exists>r. chord_to_notes chord key mode =
              Inr [r, r + (if mode = ''Major'' then 4 else 3), r + 7]))"
proof (intro conjI impI)
  assume "map_of scale_degrees_major chord = None"
  then show "chord_to_notes chord key ''Major'' = chord_to_notes ''I'' key ''Major''"
    by (simp add: chord_to_notes_def Let_def dict_get_def scale_degrees_major_def)
next
  assume "mode \<noteq> ''Major'' \<and> map_of scale_degrees_minor chord = None"
  then show "chord_to_notes chord key mode = chord_to_notes ''i'' key mode"
    by (simp add: chord_to_notes_def Let_def dict_get_def scale_degrees_minor_def)
next
  assume "key \<in> set KEYS"
  then show "\<exists>r. chord_to_notes chord key mode =
              Inr [r, r + (if mode = ''Major'' then 4 else 3), r + 7]"
    by (rule chord_to_notes_KEYS)
qed

theorem chord_to_notes_unknown_symbol_witness:
  "map_of scale_degrees_major ''VII'' = None \<and>
   chord_to_notes ''VII'' ''D'' ''Major'' = chord_to_notes ''I'' ''D'' ''Major'' \<and>
   chord_to_notes ''I'' ''D'' ''Major'' = Inr [62, 66, 69] \<and>
   ''Minor'' \<noteq> ''Major'' \<and> map_of scale_degrees_minor ''VII'' = None \<and>
   chord_to_notes ''VII'' ''D'' ''Minor'' = chord_to_notes ''i'' ''D'' ''Minor'' \<and>
   chord_to_notes ''i'' ''D'' ''Minor'' = Inr [62, 65, 69] \<and>
   ''D'' \<in> set KEYS"
proof -
  have a: "map_of scale_degrees_major ''VII'' = None"
    by (simp add: scale_degrees_major_def)
  have b: "''Minor'' \<noteq> ''Major'' \<and> map_of scale_degrees_minor ''VII'' = None"
    by (simp add: scale_degrees_minor_def)
  have c: "''D'' \<in> set KEYS"
    by (simp add: KEYS_def)
  have d: "chord_to_notes ''I'' ''D'' ''Major'' = Inr [62, 66, 69]"
    by (simp add: chord_to_notes_def scale_degrees_major_def parser_defs Let_def)
  have e: "chord_to_notes ''i'' ''D'' ''Minor'' = Inr [62, 65, 69]"
    by (simp add: chord_to_notes_def scale_degrees_minor_def parser_defs Let_def)
  from chord_to_notes_unknown_symbol [of "''VII''" "''D''" "''Minor''"] a b
  have "chord_to_notes ''VII'' ''D'' ''Major'' = chord_to_notes ''I'' ''D'' ''Major'' \<and>
        chord_to_notes ''VII'' ''D'' ''Minor'' = chord_to_notes ''i'' ''D'' ''Minor''"
    by blast
  with a b c d e show ?thesis by blast
qed

text \<open>
  Claim C10. For each of the twelve keys and either mode the scale is the tonic plus the
  intervals with no reduction taking effect: every pitch stays below 128, and the
  sequence is strictly increasing.
\<close>

theorem make_scale_strictly_increasing:
  assumes "key \<in> set KEYS"
  shows "\<exists>base ps. note_name_to_number (key @ ''4'') = Inr base
           \<and> make_scale key mode = Inr ps
           \<and> ps = map (\<lambda>i. base + i)
                    (if mode = ''Major'' then major_intervals else minor_intervals)
           \<and> (\<forall>p \<in> set ps. p < 128)
           \<and> sorted_wrt (<) ps"
proof -
  obtain base where b: "note_name_to_number (key @ ''4'') = Inr base" "60 \<le> base" "base \<le> 71"
    using note_number_KEYS[OF assms] by blast
  define ps where "ps = map (\<lambda>i. base + i)
                    (if mode = ''Major'' then major_intervals else minor_intervals)"
  have "make_scale key mode = Inr ps"
    using b by (simp add: make_scale_def ps_def major_intervals_def minor_intervals_def)
  moreover have "\<forall>p \<in> set ps. p < 128"
    using b(3) by (auto simp: ps_def major_intervals_def minor_intervals_def)
  moreover have "sorted_wrt (<) ps"
    by (simp add: ps_def major_intervals_def minor_intervals_def)
  ultimately show ?thesis using b(1) ps_def by blast
qed

theorem make_scale_strictly_increasing_witness:
  "''B'' \<in> set KEYS \<and> make_scale ''B'' ''Major'' = Inr [71, 73, 75, 76, 78, 80, 82] \<and>
   sorted_wrt (<) [71, 73, 75, 76, 78, 80, 82::int]"
proof -
  have k: "''B'' \<in> set KEYS"
    by (simp add: KEYS_def)
  have v: "make_scale ''B'' ''Major'' = Inr [71, 73, 75, 76, 78, 80, 82]"
    by (simp add: make_scale_def parser_defs major_intervals_def)
  from make_scale_strictly_increasing [OF k, of "''Major''"] v
  have "sorted_wrt (<) [71, 73, 75, 76, 78, 80, 82::int]"
    by auto
  with k v show ?thesis by blast
qed

subsection \<open>The driver\<close>

lemma chord_pitches_append: "chord_pitches (xs @ ys) = chord_pitches xs @ chord_pitches ys"
  by (simp add: chord_pitches_def)

lemma length_four: "length m = 4 \<Longrightarrow> \<exists>a b c d. m = [a, b, c, d]"
proof -
  assume "length m = 4"
  then have "length m = Suc (Suc (Suc (Suc 0)))" by simp
  then show ?thesis by (auto simp: length_Suc_conv)
qed

lemma stake_split:
  assumes "stake (m + n) a = stake (m + n) b"
  shows "stake m a = stake m b \<and> stake n (sdrop m a) = stake n (sdrop m b)"
proof -
  have "stake m a @ stake n (sdrop m a) = stake m b @ stake n (sdrop m b)"
    using assms by simp
  then show ?thesis
    by (simp del: stake_add)
qed

lemma evolve_loop_two:
  assumes "scale \<noteq> []" and "stake k g1 = stake k g2"
  shows "\<exists>m. evolve_loop k scale c acc g1 = Inr (acc @ m, sdrop k g1)
           \<and> evolve_loop k scale c acc g2 = Inr (acc @ m, sdrop k g2)
           \<and> length m = k \<and> set m \<subseteq> set scale"
  using assms(2)
proof (induction k arbitrary: c acc g1 g2)
  case 0
  show ?case by simp
next
  case (Suc k)
  from Suc.prems have h: "shd g2 = shd g1" and t: "stake k (stl g1) = stake k (stl g2)"
    by simp_all
  define step :: int where "step = [- 2, - 1, 0, 1, 2] ! (shd g1 mod 5)"
  have ch1: "np_random_choice [- 2, - 1, 0, 1, 2::int] g1 = Inr (step, stl g1)"
    by (simp add: np_random_choice_def step_def)
  have ch2: "np_random_choice [- 2, - 1, 0, 1, 2::int] g2 = Inr (step, stl g2)"
    by (simp add: np_random_choice_def step_def h)
  obtain p where p: "walk_step scale c step = Inr p" "p \<in> set scale"
    using walk_step_ok[OF assms(1)] by blast
  obtain m where m:
    "evolve_loop k scale p (acc @ [p]) (stl g1) = Inr ((acc @ [p]) @ m, sdrop k (stl g1))"
    "evolve_loop k scale p (acc @ [p]) (stl g2) = Inr ((acc @ [p]) @ m, sdrop k (stl g2))"
    "length m = k" "set m \<subseteq> set scale"
    using Suc.IH[OF t] by blast
  have "evolve_loop (Suc k) scale c acc g1 = Inr (acc @ (p # m), sdrop (Suc k) g1)"
    using ch1 p(1) m(1) by simp
  moreover have "evolve_loop (Suc k) scale c acc g2 = Inr (acc @ (p # m), sdrop (Suc k) g2)"
    using ch2 p(1) m(2) by simp
  moreover have "length (p # m) = Suc k" "set (p # m) \<subseteq> set scale"
    using p(2) m(3,4) by simp_all
  ultimately show ?case by blast
qed

lemma evolve_melody_two:
  assumes "scale \<noteq> []" and "prev \<noteq> []" and "stake (nat len) g1 = stake (nat len) g2"
  shows "\<exists>m. evolve_melody prev scale len g1 = Inr (m, sdrop (nat len) g1)
           \<and> evolve_melody prev scale len g2 = Inr (m, sdrop (nat len) g2)
           \<and> length m = nat len \<and> set m \<subseteq> set scale"
  using evolve_loop_two[OF assms(1,3), of "last prev" "[]"] assms(2)
  by (auto simp: evolve_melody_def py_getitem_last)

lemma chord_to_notes_Inr:
  "note_name_to_number (key @ ''4'') = Inr base \<Longrightarrow>
     \<exists>r. chord_to_notes chord key mode =
            Inr [r, r + (if mode = ''Major'' then 4 else 3), r + 7]"
  by (simp add: chord_to_notes_def Let_def)

lemma make_scale_Inr:
  "make_scale key mode = Inr sc \<Longrightarrow>
     (\<exists>base. note_name_to_number (key @ ''4'') = Inr base) \<and> sc \<noteq> []"
  by (auto simp: make_scale_def major_intervals_def minor_intervals_def
      split: sum.splits if_splits)

lemma chord_body_eval:
  assumes "chord_to_notes chord key mode = Inr [c0, c1, c2]"
    and "evolve_melody (melody st) sc 4 (rng_state st) = Inr ([m0, m1, m2, m3], g')"
  shows "chord_body key mode sc st chord =
     Inr \<lparr>inst_notes = inst_notes st @
            [Note 70 c0 (time st) (time st + 9 / 10),
             Note 70 c1 (time st) (time st + 9 / 10),
             Note 70 c2 (time st) (time st + 9 / 10),
             Note 100 m0 (time st) (time st + 1 / 5),
             Note 100 m1 (time st + 1 / 4) (time st + 1 / 4 + 1 / 5),
             Note 100 m2 (time st + 1 / 2) (time st + 1 / 2 + 1 / 5),
             Note 100 m3 (time st + 3 / 4) (time st + 3 / 4 + 1 / 5)],
          notes_plot = notes_plot st @
            [(time st, m0), (time st + 1 / 4, m1), (time st + 1 / 2, m2), (time st + 3 / 4, m3)],
          time = time st + 1,
          melody = [m0, m1, m2, m3],
          rng_state = g'\<rparr>"
  using assms by (simp add: chord_body_def Let_def)


lemma chord_body_two:
  assumes sc: "make_scale key mode = Inr sc"
    and so: "same_output st1 st2"
    and mel: "melody st1 \<noteq> []"
    and stk: "stake 4 (rng_state st1) = stake 4 (rng_state st2)"
  shows "\<exists>r1 r2 blk.
     chord_body key mode sc st1 chord = Inr r1 \<and>
     chord_body key mode sc st2 chord = Inr r2 \<and>
     same_output r1 r2 \<and>
     rng_state r1 = sdrop 4 (rng_state st1) \<and> rng_state r2 = sdrop 4 (rng_state st2) \<and>
     inst_notes r1 = inst_notes st1 @ blk \<and> length blk = 7 \<and>
     length (notes_plot r1) = length (notes_plot st1) + 4 \<and>
     time r1 = time st1 + 1 \<and> melody r1 \<noteq> [] \<and>
     chronological (time st1) (time st1 + 1) blk \<and>
     chord_to_notes chord key mode = Inr (map pitch (take 3 blk)) \<and>
     chord_to_notes chord key mode = Inr (chord_pitches blk)"
proof -
  from make_scale_Inr[OF sc] obtain base where
    b: "note_name_to_number (key @ ''4'') = Inr base" and ne: "sc \<noteq> []"
    by blast
  from chord_to_notes_Inr[OF b] obtain c0 c1 c2 where
    c: "chord_to_notes chord key mode = Inr [c0, c1, c2]"
    by blast
  have eqs: "inst_notes st2 = inst_notes st1" "notes_plot st2 = notes_plot st1"
    "time st2 = time st1" "melody st2 = melody st1"
    using so by (simp_all add: same_output_def)
  have "stake (nat 4) (rng_state st1) = stake (nat 4) (rng_state st2)"
    using stk by simp
  from evolve_melody_two[OF ne mel this] obtain m where
    m: "evolve_melody (melody st1) sc 4 (rng_state st1) = Inr (m, sdrop 4 (rng_state st1))"
       "evolve_melody (melody st1) sc 4 (rng_state st2) = Inr (m, sdrop 4 (rng_state st2))"
       "length m = 4"
    by auto
  from length_four[OF m(3)] obtain m0 m1 m2 m3 where m4: "m = [m0, m1, m2, m3]"
    by blast
  have e1: "evolve_melody (melody st1) sc 4 (rng_state st1)
              = Inr ([m0, m1, m2, m3], sdrop 4 (rng_state st1))"
    using m(1) m4 by simp
  have e2: "evolve_melody (melody st2) sc 4 (rng_state st2)
              = Inr ([m0, m1, m2, m3], sdrop 4 (rng_state st2))"
    using m(2) m4 eqs(4) by simp
  define blk where "blk =
     [Note 70 c0 (time st1) (time st1 + 9 / 10),
      Note 70 c1 (time st1) (time st1 + 9 / 10),
      Note 70 c2 (time st1) (time st1 + 9 / 10),
      Note 100 m0 (time st1) (time st1 + 1 / 5),
      Note 100 m1 (time st1 + 1 / 4) (time st1 + 1 / 4 + 1 / 5),
      Note 100 m2 (time st1 + 1 / 2) (time st1 + 1 / 2 + 1 / 5),
      Note 100 m3 (time st1 + 3 / 4) (time st1 + 3 / 4 + 1 / 5)]"
  define plt where "plt =
     [(time st1, m0), (time st1 + 1 / 4, m1), (time st1 + 1 / 2, m2), (time st1 + 3 / 4, m3)]"
  define R1 where "R1 =
     \<lparr>inst_notes = inst_notes st1 @ blk, notes_plot = notes_plot st1 @ plt,
      time = time st1 + 1, melody = [m0, m1, m2, m3],
      rng_state = sdrop 4 (rng_state st1)\<rparr>"
  define R2 where "R2 =
     \<lparr>inst_notes = inst_notes st1 @ blk, notes_plot = notes_plot st1 @ plt,
      time = time st1 + 1, melody = [m0, m1, m2, m3],
      rng_state = sdrop 4 (rng_state st2)\<rparr>"
  have r1: "chord_body key mode sc st1 chord = Inr R1"
    using chord_body_eval[OF c e1] by (simp add: R1_def blk_def plt_def)
  have r2: "chord_body key mode sc st2 chord = Inr R2"
    using chord_body_eval[OF c e2] by (simp add: R2_def blk_def plt_def eqs)
  have props: "same_output R1 R2"
    "rng_state R1 = sdrop 4 (rng_state st1)" "rng_state R2 = sdrop 4 (rng_state st2)"
    "inst_notes R1 = inst_notes st1 @ blk"
    "length (notes_plot R1) = length (notes_plot st1) + 4"
    "time R1 = time st1 + 1" "melody R1 \<noteq> []"
    by (simp_all add: R1_def R2_def same_output_def plt_def)
  have blk: "length blk = 7" "chronological (time st1) (time st1 + 1) blk"
    "chord_to_notes chord key mode = Inr (map pitch (take 3 blk))"
    "chord_to_notes chord key mode = Inr (chord_pitches blk)"
    by (simp_all add: blk_def chronological_def chord_pitches_def c)
  from r1 r2 props blk show ?thesis
    by blast
qed

lemma chronological_append:
  assumes x: "chronological a b xs" and y: "chronological b c ys" and ab: "a \<le> b" and bc: "b \<le> c"
  shows "chronological a c (xs @ ys)"
proof -
  have "\<forall>u \<in> set xs. \<forall>v \<in> set ys. start u \<le> start v"
    using x y by (fastforce simp: chronological_def)
  moreover have "\<forall>n \<in> set (xs @ ys). a \<le> start n \<and> start n < c"
    using x y ab bc by (fastforce simp: chronological_def)
  ultimately show ?thesis
    using x y by (simp add: chronological_def sorted_append)
qed

lemma prog_loop_two:
  assumes sc: "make_scale key mode = Inr sc"
  shows "same_output st1 st2 \<Longrightarrow> melody st1 \<noteq> [] \<Longrightarrow>
     stake (4 * length cs) (rng_state st1) = stake (4 * length cs) (rng_state st2) \<Longrightarrow>
     \<exists>q1 q2 new.
       prog_loop key mode sc cs st1 = Inr q1 \<and>
       prog_loop key mode sc cs st2 = Inr q2 \<and>
       same_output q1 q2 \<and>
       rng_state q1 = sdrop (4 * length cs) (rng_state st1) \<and>
       rng_state q2 = sdrop (4 * length cs) (rng_state st2) \<and>
       inst_notes q1 = inst_notes st1 @ new \<and> length new = 7 * length cs \<and>
       length (notes_plot q1) = length (notes_plot st1) + 4 * length cs \<and>
       time q1 = time st1 + of_nat (length cs) \<and> melody q1 \<noteq> [] \<and>
       chronological (time st1) (time st1 + of_nat (length cs)) new \<and>
       (cs \<noteq> [] \<longrightarrow> chord_to_notes (hd cs) key mode = Inr (map pitch (take 3 new))) \<and>
       (\<forall>ts. map (\<lambda>c. chord_to_notes c key mode) cs = map Inr ts \<longrightarrow>
          chord_pitches new = concat ts)"
proof (induction cs arbitrary: st1 st2)
  case Nil
  then show ?case by (auto simp: chronological_def chord_pitches_def)
next
  case (Cons c cs)
  have "stake (4 + 4 * length cs) (rng_state st1) = stake (4 + 4 * length cs) (rng_state st2)"
    using Cons.prems(3) by simp
  from stake_split[OF this]
  have s4: "stake 4 (rng_state st1) = stake 4 (rng_state st2)"
    and rest: "stake (4 * length cs) (sdrop 4 (rng_state st1))
                 = stake (4 * length cs) (sdrop 4 (rng_state st2))"
    by simp_all
  from chord_body_two[OF sc Cons.prems(1,2) s4, of c] obtain r1 r2 blk where
    r: "chord_body key mode sc st1 c = Inr r1" "chord_body key mode sc st2 c = Inr r2"
       "same_output r1 r2"
       "rng_state r1 = sdrop 4 (rng_state st1)" "rng_state r2 = sdrop 4 (rng_state st2)"
       "inst_notes r1 = inst_notes st1 @ blk" "length blk = 7"
       "length (notes_plot r1) = length (notes_plot st1) + 4"
       "time r1 = time st1 + 1" "melody r1 \<noteq> []"
       "chronological (time st1) (time st1 + 1) blk"
       "chord_to_notes c key mode = Inr (map pitch (take 3 blk))"
       "chord_to_notes c key mode = Inr (chord_pitches blk)"
    by blast
  have rest': "stake (4 * length cs) (rng_state r1) = stake (4 * length cs) (rng_state r2)"
    using rest r(4,5) by simp
  from Cons.IH[OF r(3) r(10) rest'] obtain q1 q2 new where
    q: "prog_loop key mode sc cs r1 = Inr q1" "prog_loop key mode sc cs r2 = Inr q2"
       "same_output q1 q2"
       "rng_state q1 = sdrop (4 * length cs) (rng_state r1)"
       "rng_state q2 = sdrop (4 * length cs) (rng_state r2)"
       "inst_notes q1 = inst_notes r1 @ new" "length new = 7 * length cs"
       "length (notes_plot q1) = length (notes_plot r1) + 4 * length cs"
       "time q1 = time r1 + of_nat (length cs)" "melody q1 \<noteq> []"
       "chronological (time r1) (time r1 + of_nat (length cs)) new"
       "\<forall>ts. map (\<lambda>c. chord_to_notes c key mode) cs = map Inr ts \<longrightarrow>
          chord_pitches new = concat ts"
    by blast
  have p1: "prog_loop key mode sc (c # cs) st1 = Inr q1"
    using r(1) q(1) by simp
  have p2: "prog_loop key mode sc (c # cs) st2 = Inr q2"
    using r(2) q(2) by simp
  have g1: "rng_state q1 = sdrop (4 * length (c # cs)) (rng_state st1)"
    using q(4) r(4) by (simp add: add.commute)
  have g2: "rng_state q2 = sdrop (4 * length (c # cs)) (rng_state st2)"
    using q(5) r(5) by (simp add: add.commute)
  have n: "inst_notes q1 = inst_notes st1 @ (blk @ new)"
    "length (blk @ new) = 7 * length (c # cs)"
    "length (notes_plot q1) = length (notes_plot st1) + 4 * length (c # cs)"
    "time q1 = time st1 + of_nat (length (c # cs))"
    using q(6-9) r(6-9) by simp_all
  have "chronological (time st1) (time st1 + 1 + of_nat (length cs)) (blk @ new)"
    using chronological_append[OF r(11) q(11)[unfolded r(9)]] by simp
  then have ch: "chronological (time st1) (time st1 + of_nat (length (c # cs))) (blk @ new)"
    by (simp add: algebra_simps)
  have f: "c # cs \<noteq> [] \<longrightarrow>
             chord_to_notes (hd (c # cs)) key mode = Inr (map pitch (take 3 (blk @ new)))"
    using r(12) r(7) by simp
  have f2: "\<forall>ts. map (\<lambda>c. chord_to_notes c key mode) (c # cs) = map Inr ts \<longrightarrow>
              chord_pitches (blk @ new) = concat ts"
  proof (intro allI impI)
    fix ts assume "map (\<lambda>c. chord_to_notes c key mode) (c # cs) = map Inr ts"
    then obtain t ts' where ts: "ts = t # ts'" "chord_to_notes c key mode = Inr t"
      "map (\<lambda>c. chord_to_notes c key mode) cs = map Inr ts'"
      by (cases ts) auto
    from ts(2) r(13) have "chord_pitches blk = t" by simp
    moreover from q(12) ts(3) have "chord_pitches new = concat ts'" by blast
    ultimately show "chord_pitches (blk @ new) = concat ts"
      using ts(1) by (simp add: chord_pitches_append)
  qed
  from p1 p2 q(3) g1 g2 n q(10) ch f f2 show ?case
    by blast
qed

lemma gen_loop_two:
  assumes sc: "make_scale key mode = Inr sc"
  shows "same_output st1 st2 \<Longrightarrow> melody st1 \<noteq> [] \<Longrightarrow>
     stake (4 * (k * length prog)) (rng_state st1)
       = stake (4 * (k * length prog)) (rng_state st2) \<Longrightarrow>
     \<exists>q1 q2 new.
       gen_loop k key mode sc prog st1 = Inr q1 \<and>
       gen_loop k key mode sc prog st2 = Inr q2 \<and>
       same_output q1 q2 \<and>
       rng_state q1 = sdrop (4 * (k * length prog)) (rng_state st1) \<and>
       rng_state q2 = sdrop (4 * (k * length prog)) (rng_state st2) \<and>
       inst_notes q1 = inst_notes st1 @ new \<and> length new = 7 * (k * length prog) \<and>
       length (notes_plot q1) = length (notes_plot st1) + 4 * (k * length prog) \<and>
       time q1 = time st1 + of_nat (k * length prog) \<and> melody q1 \<noteq> [] \<and>
       chronological (time st1) (time st1 + of_nat (k * length prog)) new \<and>
       (k \<noteq> 0 \<and> prog \<noteq> [] \<longrightarrow>
          chord_to_notes (hd prog) key mode = Inr (map pitch (take 3 new))) \<and>
       (\<forall>ts. map (\<lambda>c. chord_to_notes c key mode) prog = map Inr ts \<longrightarrow>
          chord_pitches new = concat (replicate k (concat ts)))"
proof (induction k arbitrary: st1 st2)
  case 0
  then show ?case by (auto simp: chronological_def chord_pitches_def)
next
  case (Suc k)
  let ?n = "length prog"
  have "stake (4 * ?n + 4 * (k * ?n)) (rng_state st1) = stake (4 * ?n + 4 * (k * ?n)) (rng_state st2)"
    using Suc.prems(3) by (simp add: algebra_simps)
  from stake_split[OF this]
  have s4: "stake (4 * ?n) (rng_state st1) = stake (4 * ?n) (rng_state st2)"
    and rest: "stake (4 * (k * ?n)) (sdrop (4 * ?n) (rng_state st1))
                 = stake (4 * (k * ?n)) (sdrop (4 * ?n) (rng_state st2))"
    by simp_all
  from prog_loop_two[OF sc Suc.prems(1,2) s4] obtain r1 r2 blk where
    r: "prog_loop key mode sc prog st1 = Inr r1" "prog_loop key mode sc prog st2 = Inr r2"
       "same_output r1 r2"
       "rng_state r1 = sdrop (4 * ?n) (rng_state st1)"
       "rng_state r2 = sdrop (4 * ?n) (rng_state st2)"
       "inst_notes r1 = inst_notes st1 @ blk" "length blk = 7 * ?n"
       "length (notes_plot r1) = length (notes_plot st1) + 4 * ?n"
       "time r1 = time st1 + of_nat ?n" "melody r1 \<noteq> []"
       "chronological (time st1) (time st1 + of_nat ?n) blk"
       "prog \<noteq> [] \<longrightarrow> chord_to_notes (hd prog) key mode = Inr (map pitch (take 3 blk))"
       "\<forall>ts. map (\<lambda>c. chord_to_notes c key mode) prog = map Inr ts \<longrightarrow>
          chord_pitches blk = concat ts"
    by blast
  have rest': "stake (4 * (k * ?n)) (rng_state r1) = stake (4 * (k * ?n)) (rng_state r2)"
    using rest r(4,5) by simp
  from Suc.IH[OF r(3) r(10) rest'] obtain q1 q2 new where
    q: "gen_loop k key mode sc prog r1 = Inr q1" "gen_loop k key mode sc prog r2 = Inr q2"
       "same_output q1 q2"
       "rng_state q1 = sdrop (4 * (k * ?n)) (rng_state r1)"
       "rng_state q2 = sdrop (4 * (k * ?n)) (rng_state r2)"
       "inst_notes q1 = inst_notes r1 @ new" "length new = 7 * (k * ?n)"
       "length (notes_plot q1) = length (notes_plot r1) + 4 * (k * ?n)"
       "time q1 = time r1 + of_nat (k * ?n)" "melody q1 \<noteq> []"
       "chronological (time r1) (time r1 + of_nat (k * ?n)) new"
       "\<forall>ts. map (\<lambda>c. chord_to_notes c key mode) prog = map Inr ts \<longrightarrow>
          chord_pitches new = concat (replicate k (concat ts))"
    by blast
  have p1: "gen_loop (Suc k) key mode sc prog st1 = Inr q1"
    using r(1) q(1) by simp
  have p2: "gen_loop (Suc k) key mode sc prog st2 = Inr q2"
    using r(2) q(2) by simp
  have g1: "rng_state q1 = sdrop (4 * (Suc k * ?n)) (rng_state st1)"
    using q(4) r(4) by (simp add: algebra_simps)
  have g2: "rng_state q2 = sdrop (4 * (Suc k * ?n)) (rng_state st2)"
    using q(5) r(5) by (simp add: algebra_simps)
  have n: "inst_notes q1 = inst_notes st1 @ (blk @ new)"
    "length (blk @ new) = 7 * (Suc k * ?n)"
    "length (notes_plot q1) = length (notes_plot st1) + 4 * (Suc k * ?n)"
    "time q1 = time st1 + of_nat (Suc k * ?n)"
    using q(6-9) r(6-9) by (simp_all add: algebra_simps)
  have "chronological (time st1) (time st1 + of_nat ?n + of_nat (k * ?n)) (blk @ new)"
    using chronological_append[OF r(11) q(11)[unfolded r(9)]] by simp
  then have ch: "chronological (time st1) (time st1 + of_nat (Suc k * ?n)) (blk @ new)"
    by (simp add: algebra_simps)
  have f: "Suc k \<noteq> 0 \<and> prog \<noteq> [] \<longrightarrow>
             chord_to_notes (hd prog) key mode = Inr (map pitch (take 3 (blk @ new)))"
  proof
    assume "Suc k \<noteq> 0 \<and> prog \<noteq> []"
    then have "3 \<le> length blk" and "chord_to_notes (hd prog) key mode = Inr (map pitch (take 3 blk))"
      using r(7) r(12) by (cases prog; simp)+
    then show "chord_to_notes (hd prog) key mode = Inr (map pitch (take 3 (blk @ new)))"
      by simp
  qed
  have f2: "\<forall>ts. map (\<lambda>c. chord_to_notes c key mode) prog = map Inr ts \<longrightarrow>
              chord_pitches (blk @ new) = concat (replicate (Suc k) (concat ts))"
    using r(13) q(12) by (simp add: chord_pitches_append)
  from p1 p2 q(3) g1 g2 n q(10) ch f f2 show ?case
    by blast
qed

lemma triads_exist:
  assumes "make_scale key mode = Inr sc"
  shows "\<exists>ts. map (\<lambda>c. chord_to_notes c key mode) cs = map Inr ts"
proof (induction cs)
  case Nil
  show ?case by simp
next
  case (Cons c cs)
  from make_scale_Inr[OF assms] obtain base where "note_name_to_number (key @ ''4'') = Inr base"
    by blast
  from chord_to_notes_Inr[OF this] obtain t where "chord_to_notes c key mode = Inr t"
    by blast
  moreover from Cons.IH obtain ts where "map (\<lambda>c. chord_to_notes c key mode) cs = map Inr ts"
    by blast
  ultimately have "map (\<lambda>c. chord_to_notes c key mode) (c # cs) = map Inr (t # ts)"
    by simp
  then show ?case by blast
qed

lemma select_progression_total: "\<exists>prog. select_progression genre = Inr prog"
  by (simp add: select_progression_def dict_get_def GENRE_PROGRESSIONS_def py_getitem_def)

lemma generate_music_two:
  assumes sc: "make_scale key mode = Inr sc"
    and pr: "select_progression genre = Inr prog"
    and stk: "stake (Suc (4 * (nat generations * length prog))) g1
                = stake (Suc (4 * (nat generations * length prog))) g2"
  shows "\<exists>ns plot.
     generate_music genre key mode emotion generations g1 =
       Inr ((\<lparr>initial_tempo = emotion_tempo emotion,
              instruments = [\<lparr>program = 0, note_list = ns\<rparr>]\<rparr>,
             plot, emotion_tempo emotion),
            sdrop (Suc (4 * (nat generations * length prog))) g1) \<and>
     generate_music genre key mode emotion generations g2 =
       Inr ((\<lparr>initial_tempo = emotion_tempo emotion,
              instruments = [\<lparr>program = 0, note_list = ns\<rparr>]\<rparr>,
             plot, emotion_tempo emotion),
            sdrop (Suc (4 * (nat generations * length prog))) g2) \<and>
     length ns = 7 * (nat generations * length prog) \<and>
     length plot = 4 * (nat generations * length prog) \<and>
     chronological 0 (of_nat (nat generations * length prog)) ns \<and>
     (0 < generations \<and> prog \<noteq> [] \<longrightarrow>
        chord_to_notes (hd prog) key mode = Inr (map pitch (take 3 ns))) \<and>
     (\<forall>ts. map (\<lambda>c. chord_to_notes c key mode) prog = map Inr ts \<longrightarrow>
        chord_pitches ns = concat (replicate (nat generations) (concat ts)))"
proof -
  let ?n = "nat generations * length prog"
  from make_scale_Inr[OF sc] have ne: "sc \<noteq> []" by blast
  from stk have h: "shd g2 = shd g1" and t: "stake (4 * ?n) (stl g1) = stake (4 * ?n) (stl g2)"
    by simp_all
  define seed where "seed = sc ! (shd g1 mod length sc)"
  have c1: "np_random_choice sc g1 = Inr (seed, stl g1)"
    using ne by (simp add: np_random_choice_def seed_def)
  have c2: "np_random_choice sc g2 = Inr (seed, stl g2)"
    using ne by (simp add: np_random_choice_def seed_def h)
  define S1 where "S1 = \<lparr>inst_notes = [], notes_plot = [], time = 0, melody = [seed],
                          rng_state = stl g1\<rparr>"
  define S2 where "S2 = \<lparr>inst_notes = [], notes_plot = [], time = 0, melody = [seed],
                          rng_state = stl g2\<rparr>"
  have so: "same_output S1 S2" and mel: "melody S1 \<noteq> []"
    and t': "stake (4 * ?n) (rng_state S1) = stake (4 * ?n) (rng_state S2)"
    using t by (simp_all add: S1_def S2_def same_output_def)
  from gen_loop_two[OF sc so mel t'] obtain q1 q2 new where
    q: "gen_loop (nat generations) key mode sc prog S1 = Inr q1"
       "gen_loop (nat generations) key mode sc prog S2 = Inr q2"
       "same_output q1 q2"
       "rng_state q1 = sdrop (4 * ?n) (rng_state S1)"
       "rng_state q2 = sdrop (4 * ?n) (rng_state S2)"
       "inst_notes q1 = inst_notes S1 @ new" "length new = 7 * ?n"
       "length (notes_plot q1) = length (notes_plot S1) + 4 * ?n"
       "chronological (time S1) (time S1 + of_nat ?n) new"
       "nat generations \<noteq> 0 \<and> prog \<noteq> [] \<longrightarrow>
          chord_to_notes (hd prog) key mode = Inr (map pitch (take 3 new))"
       "\<forall>ts. map (\<lambda>c. chord_to_notes c key mode) prog = map Inr ts \<longrightarrow>
          chord_pitches new = concat (replicate (nat generations) (concat ts))"
    by blast
  have eq: "inst_notes q2 = new" "notes_plot q2 = notes_plot q1" "inst_notes q1 = new"
    using q(3,6) by (simp_all add: same_output_def S1_def)
  have r1: "generate_music genre key mode emotion generations g1 =
       Inr ((\<lparr>initial_tempo = emotion_tempo emotion,
              instruments = [\<lparr>program = 0, note_list = new\<rparr>]\<rparr>,
             notes_plot q1, emotion_tempo emotion),
            sdrop (Suc (4 * ?n)) g1)"
    using q(1)[unfolded S1_def] q(4) eq
    by (simp add: generate_music_def Let_def sc pr c1 S1_def)
  have r2: "generate_music genre key mode emotion generations g2 =
       Inr ((\<lparr>initial_tempo = emotion_tempo emotion,
              instruments = [\<lparr>program = 0, note_list = new\<rparr>]\<rparr>,
             notes_plot q1, emotion_tempo emotion),
            sdrop (Suc (4 * ?n)) g2)"
    using q(2)[unfolded S2_def] q(5) eq
    by (simp add: generate_music_def Let_def sc pr c2 S2_def)
  have props: "length new = 7 * ?n" "length (notes_plot q1) = 4 * ?n"
    "chronological 0 (of_nat ?n) new"
    "0 < generations \<and> prog \<noteq> [] \<longrightarrow>
        chord_to_notes (hd prog) key mode = Inr (map pitch (take 3 new))"
    "\<forall>ts. map (\<lambda>c. chord_to_notes c key mode) prog = map Inr ts \<longrightarrow>
        chord_pitches new = concat (replicate (nat generations) (concat ts))"
    using q(7-11) by (simp_all add: S1_def)
  from r1 r2 props show ?thesis
    by blast
qed

lemma make_scale_C_Major: "make_scale ''C'' ''Major'' = Inr [60, 62, 64, 65, 67, 69, 71]"
  by (simp add: make_scale_def parser_defs major_intervals_def)

lemma select_progression_Pop: "select_progression ''Pop'' = Inr [''I'', ''V'', ''vi'', ''IV'']"
  by (simp add: select_progression_def dict_get_def GENRE_PROGRESSIONS_def py_getitem_def)

lemma select_progression_Rock: "select_progression ''Rock'' = Inr [''I'', ''IV'', ''V'', ''I'']"
  by (simp add: select_progression_def dict_get_def GENRE_PROGRESSIONS_def py_getitem_def)

lemma chord_I_C_Major: "chord_to_notes ''I'' ''C'' ''Major'' = Inr [60, 64, 67]"
  by (simp add: chord_to_notes_def scale_degrees_major_def parser_defs Let_def)

lemma emotion_tempo_Happy: "emotion_tempo ''Happy'' = 120"
  by (simp add: emotion_tempo_def dict_get_def)

lemma make_scale_KEYS: "key \<in> set KEYS \<Longrightarrow> \<exists>sc. make_scale key mode = Inr sc"
  using note_number_KEYS[of key] by (auto simp: make_scale_def)

text \<open>
  Claim C5, as the code has it. A non-positive count raises nothing: the loop runs zero
  times. \<^verbatim>\<open>evolve_melody\<close> returns the empty melody (after drawing a start pitch when
  \<open>prev\<close> is empty), and \<^verbatim>\<open>generate_music\<close>, for each of the twelve keys, draws its seed pitch
  and returns no notes together with the tempo.
\<close>

theorem nonpositive_count_runs_zero_iterations:
  "(len \<le> 0 \<and> prev \<noteq> [] \<longrightarrow> evolve_melody prev scale len g = Inr ([], g))
   \<and> (len \<le> 0 \<and> prev = [] \<and> scale \<noteq> [] \<longrightarrow> evolve_melody prev scale len g = Inr ([], stl g))
   \<and> (generations \<le> 0 \<and> key \<in> set KEYS \<longrightarrow>
        generate_music genre key mode emotion generations g =
          Inr ((\<lparr>initial_tempo = emotion_tempo emotion,
                 instruments = [\<lparr>program = 0, note_list = []\<rparr>]\<rparr>,
                [], emotion_tempo emotion),
               stl g))"
proof (intro conjI impI)
  assume "len \<le> 0 \<and> prev \<noteq> []"
  then show "evolve_melody prev scale len g = Inr ([], g)"
    by (simp add: evolve_melody_def py_getitem_last)
next
  assume "len \<le> 0 \<and> prev = [] \<and> scale \<noteq> []"
  then show "evolve_melody prev scale len g = Inr ([], stl g)"
    by (simp add: evolve_melody_def np_random_choice_def)
next
  assume a: "generations \<le> 0 \<and> key \<in> set KEYS"
  then obtain sc where sc: "make_scale key mode = Inr sc"
    using make_scale_KEYS by blast
  then have ne: "sc \<noteq> []"
    using make_scale_Inr by blast
  obtain prog where pr: "select_progression genre = Inr prog"
    using select_progression_total by blast
  show "generate_music genre key mode emotion generations g =
          Inr ((\<lparr>initial_tempo = emotion_tempo emotion,
                 instruments = [\<lparr>program = 0, note_list = []\<rparr>]\<rparr>,
                [], emotion_tempo emotion),
               stl g)"
    using a ne by (simp add: generate_music_def Let_def sc pr np_random_choice_def)
qed

text \<open>
  Claim C5 as stated fails: with \<open>generations = 0\<close> or \<open>- 3\<close>, and with \<open>length = 0\<close> or
  \<open>- 1\<close>, the calls return a result, not an error.
\<close>

theorem zero_generations_no_error:
  "generate_music ''Pop'' ''C'' ''Major'' ''Happy'' 0 (sconst 0) =
     Inr ((\<lparr>initial_tempo = 120, instruments = [\<lparr>program = 0, note_list = []\<rparr>]\<rparr>, [], 120),
          sconst 0)
   \<and> generate_music ''Pop'' ''C'' ''Major'' ''Happy'' (- 3) (sconst 0) =
     Inr ((\<lparr>initial_tempo = 120, instruments = [\<lparr>program = 0, note_list = []\<rparr>]\<rparr>, [], 120),
          sconst 0)
   \<and> evolve_melody [60] [60, 62, 64] 0 (sconst 0) = Inr ([], sconst 0)
   \<and> evolve_melody [60] [60, 62, 64] (- 1) (sconst 0) = Inr ([], sconst 0)"
  by (simp add: generate_music_def Let_def make_scale_C_Major select_progression_Pop
      emotion_tempo_Happy np_random_choice_def evolve_melody_def py_getitem_def)

theorem nonpositive_count_runs_zero_iterations_witness:
  "(0::int) \<le> 0 \<and> [60] \<noteq> ([]::int list) \<and> ''C'' \<in> set KEYS \<and>
   evolve_melody [60] [60, 62, 64] 0 (sconst 0) = Inr ([], sconst 0) \<and>
   generate_music ''Pop'' ''C'' ''Major'' ''Happy'' 0 (sconst 0) =
     Inr ((\<lparr>initial_tempo = emotion_tempo ''Happy'',
            instruments = [\<lparr>program = 0, note_list = []\<rparr>]\<rparr>, [], emotion_tempo ''Happy''),
          stl (sconst 0))"
proof -
  have k: "''C'' \<in> set KEYS" by (simp add: KEYS_def)
  have p: "[60] \<noteq> ([]::int list)" by simp
  from nonpositive_count_runs_zero_iterations
    [of 0 "[60]" "[60, 62, 64]" "sconst 0" 0 "''C''" "''Pop''" "''Major''" "''Happy''"] k p
  show ?thesis by simp
qed


lemma triads_Pop_C_Major:
  "map (\<lambda>c. chord_to_notes c ''C'' ''Major'') [''I'', ''V'', ''vi'', ''IV'']
     = map Inr [[60, 64, 67], [67, 71, 74], [69, 73, 76], [65, 69, 72]]"
  by (simp add: chord_to_notes_def scale_degrees_major_def parser_defs Let_def)

text \<open>
  Claim C7. Pop in C Major, Happy, one generation: whatever is drawn, the call returns
  tempo 120 and exactly 28 notes, and the pitches of the first three notes are those of
  \<^verbatim>\<open>chord_to_notes("I", "C", "Major")\<close>, that is 60, 64, 67.
\<close>

theorem pop_c_major_happy_one_generation:
  "\<exists>ns plot g'.
     generate_music ''Pop'' ''C'' ''Major'' ''Happy'' 1 g =
       Inr ((\<lparr>initial_tempo = 120, instruments = [\<lparr>program = 0, note_list = ns\<rparr>]\<rparr>,
             plot, 120), g') \<and>
     length ns = 28 \<and>
     chord_pitches ns = [60, 64, 67, 67, 71, 74, 69, 73, 76, 65, 69, 72] \<and>
     length plot = 16 \<and>
     chord_to_notes ''I'' ''C'' ''Major'' = Inr (map pitch (take 3 ns)) \<and>
     map pitch (take 3 ns) = [60, 64, 67]"
proof -
  let ?prog = "[''I'', ''V'', ''vi'', ''IV'']"
  let ?n = "nat 1 * length ?prog"
  have "\<exists>ns plot.
     generate_music ''Pop'' ''C'' ''Major'' ''Happy'' 1 g =
       Inr ((\<lparr>initial_tempo = emotion_tempo ''Happy'',
              instruments = [\<lparr>program = 0, note_list = ns\<rparr>]\<rparr>,
             plot, emotion_tempo ''Happy''), sdrop (Suc (4 * ?n)) g) \<and>
     length ns = 7 * ?n \<and> length plot = 4 * ?n \<and>
     (0 < (1::int) \<and> ?prog \<noteq> [] \<longrightarrow>
        chord_to_notes (hd ?prog) ''C'' ''Major'' = Inr (map pitch (take 3 ns))) \<and>
     (\<forall>ts. map (\<lambda>c. chord_to_notes c ''C'' ''Major'') ?prog = map Inr ts \<longrightarrow>
        chord_pitches ns = concat (replicate (nat 1) (concat ts)))"
    using generate_music_two[where ?g1.0=g and ?g2.0=g and emotion="''Happy''"
        and generations=1, OF make_scale_C_Major select_progression_Pop refl]
    by blast
  then obtain ns plot where
    run: "generate_music ''Pop'' ''C'' ''Major'' ''Happy'' 1 g =
       Inr ((\<lparr>initial_tempo = emotion_tempo ''Happy'',
              instruments = [\<lparr>program = 0, note_list = ns\<rparr>]\<rparr>,
             plot, emotion_tempo ''Happy''), sdrop (Suc (4 * ?n)) g)"
    and len: "length ns = 7 * ?n" "length plot = 4 * ?n"
    and first: "0 < (1::int) \<and> ?prog \<noteq> [] \<longrightarrow>
        chord_to_notes (hd ?prog) ''C'' ''Major'' = Inr (map pitch (take 3 ns))"
    and chords: "\<forall>ts. map (\<lambda>c. chord_to_notes c ''C'' ''Major'') ?prog = map Inr ts \<longrightarrow>
        chord_pitches ns = concat (replicate (nat 1) (concat ts))"
    by (elim exE conjE)
  have r1: "generate_music ''Pop'' ''C'' ''Major'' ''Happy'' 1 g =
          Inr ((\<lparr>initial_tempo = 120, instruments = [\<lparr>program = 0, note_list = ns\<rparr>]\<rparr>,
                plot, 120), sdrop (Suc (4 * ?n)) g)"
    using run by (simp add: emotion_tempo_Happy)
  have r2: "length ns = 28" "length plot = 16"
    using len by simp_all
  have r3: "chord_to_notes ''I'' ''C'' ''Major'' = Inr (map pitch (take 3 ns))"
    using first by simp
  then have r4: "map pitch (take 3 ns) = [60, 64, 67]"
    by (simp add: chord_I_C_Major)
  have "chord_pitches ns
          = concat (replicate (nat 1) (concat [[60, 64, 67], [67, 71, 74], [69, 73, 76], [65, 69, 72]]))"
    using chords triads_Pop_C_Major by blast
  then have r5: "chord_pitches ns = [60, 64, 67, 67, 71, 74, 69, 73, 76, 65, 69, 72]"
    by simp
  show ?thesis
  proof (intro exI conjI)
    show "generate_music ''Pop'' ''C'' ''Major'' ''Happy'' 1 g =
          Inr ((\<lparr>initial_tempo = 120, instruments = [\<lparr>program = 0, note_list = ns\<rparr>]\<rparr>,
                plot, 120), sdrop (Suc (4 * ?n)) g)"
      by (rule r1)
    show "length ns = 28" by (rule r2(1))
    show "chord_pitches ns = [60, 64, 67, 67, 71, 74, 69, 73, 76, 65, 69, 72]" by (rule r5)
    show "length plot = 16" by (rule r2(2))
    show "chord_to_notes ''I'' ''C'' ''Major'' = Inr (map pitch (take 3 ns))" by (rule r3)
    show "map pitch (take 3 ns) = [60, 64, 67]" by (rule r4)
  qed
qed

text \<open>
  Claim C8. A genre that is not in the table selects the progression I, IV, V, I; the
  run is then the run of Rock, whose first variant is that progression. A genre of the
  table selects the first of its variants. For each of the twelve keys the run returns
  a result, and the pitches of its chord notes (the notes of velocity 70) are the
  triads of the selected progression, in order, once per generation.
\<close>

theorem unknown_genre_falls_back:
  "(map_of GENRE_PROGRESSIONS genre = None \<longrightarrow>
      select_progression genre = Inr [''I'', ''IV'', ''V'', ''I''] \<and>
      generate_music genre key mode emotion generations g
        = generate_music ''Rock'' key mode emotion generations g)
   \<and> (\<forall>variants. map_of GENRE_PROGRESSIONS genre = Some variants \<longrightarrow>
         variants \<noteq> [] \<and> select_progression genre = Inr (hd variants))
   \<and> (key \<in> set KEYS \<longrightarrow>
        (\<exists>prog ts ns plot g'.
           select_progression genre = Inr prog \<and>
           map (\<lambda>c. chord_to_notes c key mode) prog = map Inr ts \<and>
           generate_music genre key mode emotion generations g =
             Inr ((\<lparr>initial_tempo = emotion_tempo emotion,
                    instruments = [\<lparr>program = 0, note_list = ns\<rparr>]\<rparr>,
                   plot, emotion_tempo emotion), g') \<and>
           chord_pitches ns = concat (replicate (nat generations) (concat ts))))"
proof (intro conjI impI allI)
  assume u: "map_of GENRE_PROGRESSIONS genre = None"
  then show s: "select_progression genre = Inr [''I'', ''IV'', ''V'', ''I'']"
    by (simp add: select_progression_def dict_get_def py_getitem_def)
  then show "generate_music genre key mode emotion generations g
        = generate_music ''Rock'' key mode emotion generations g"
    by (cases "make_scale key mode")
      (simp_all add: generate_music_def Let_def select_progression_Rock)
next
  fix variants assume "map_of GENRE_PROGRESSIONS genre = Some variants"
  then show "variants \<noteq> []" and "select_progression genre = Inr (hd variants)"
    by (auto simp: select_progression_def dict_get_def py_getitem_def GENRE_PROGRESSIONS_def
        split: if_splits)
next
  assume "key \<in> set KEYS"
  then obtain sc where sc: "make_scale key mode = Inr sc"
    using make_scale_KEYS by blast
  obtain prog where pr: "select_progression genre = Inr prog"
    using select_progression_total by blast
  obtain ts where ts: "map (\<lambda>c. chord_to_notes c key mode) prog = map Inr ts"
    using triads_exist[OF sc] by blast
  let ?n = "nat generations * length prog"
  have "\<exists>ns plot.
     generate_music genre key mode emotion generations g =
       Inr ((\<lparr>initial_tempo = emotion_tempo emotion,
              instruments = [\<lparr>program = 0, note_list = ns\<rparr>]\<rparr>,
             plot, emotion_tempo emotion), sdrop (Suc (4 * ?n)) g) \<and>
     (\<forall>ts. map (\<lambda>c. chord_to_notes c key mode) prog = map Inr ts \<longrightarrow>
        chord_pitches ns = concat (replicate (nat generations) (concat ts)))"
    using generate_music_two[where ?g1.0=g and ?g2.0=g and emotion=emotion
        and generations=generations, OF sc pr refl]
    by blast
  then obtain ns plot where
    run: "generate_music genre key mode emotion generations g =
       Inr ((\<lparr>initial_tempo = emotion_tempo emotion,
              instruments = [\<lparr>program = 0, note_list = ns\<rparr>]\<rparr>,
             plot, emotion_tempo emotion), sdrop (Suc (4 * ?n)) g)"
    and chords: "\<forall>ts. map (\<lambda>c. chord_to_notes c key mode) prog = map Inr ts \<longrightarrow>
        chord_pitches ns = concat (replicate (nat generations) (concat ts))"
    by (elim exE conjE)
  from chords ts have cp: "chord_pitches ns = concat (replicate (nat generations) (concat ts))"
    by blast
  show "\<exists>prog ts ns plot g'.
           select_progression genre = Inr prog \<and>
           map (\<lambda>c. chord_to_notes c key mode) prog = map Inr ts \<and>
           generate_music genre key mode emotion generations g =
             Inr ((\<lparr>initial_tempo = emotion_tempo emotion,
                    instruments = [\<lparr>program = 0, note_list = ns\<rparr>]\<rparr>,
                   plot, emotion_tempo emotion), g') \<and>
           chord_pitches ns = concat (replicate (nat generations) (concat ts))"
  proof (intro exI conjI)
    show "select_progression genre = Inr prog" by (rule pr)
    show "map (\<lambda>c. chord_to_notes c key mode) prog = map Inr ts" by (rule ts)
    show "generate_music genre key mode emotion generations g =
       Inr ((\<lparr>initial_tempo = emotion_tempo emotion,
              instruments = [\<lparr>program = 0, note_list = ns\<rparr>]\<rparr>,
             plot, emotion_tempo emotion), sdrop (Suc (4 * ?n)) g)"
      by (rule run)
    show "chord_pitches ns = concat (replicate (nat generations) (concat ts))" by (rule cp)
  qed
qed

theorem unknown_genre_falls_back_witness:
  "map_of GENRE_PROGRESSIONS ''Blues'' = None \<and>
   select_progression ''Blues'' = Inr [''I'', ''IV'', ''V'', ''I''] \<and>
   ''C'' \<in> set KEYS \<and>
   map_of GENRE_PROGRESSIONS ''Pop''
     = Some [[''I'', ''V'', ''vi'', ''IV''], [''I'', ''vi'', ''IV'', ''V'']] \<and>
   select_progression ''Pop'' = Inr [''I'', ''V'', ''vi'', ''IV'']"
proof -
  have a: "map_of GENRE_PROGRESSIONS ''Blues'' = None"
    by (simp add: GENRE_PROGRESSIONS_def)
  have b: "map_of GENRE_PROGRESSIONS ''Pop''
     = Some [[''I'', ''V'', ''vi'', ''IV''], [''I'', ''vi'', ''IV'', ''V'']]"
    by (simp add: GENRE_PROGRESSIONS_def)
  have k: "''C'' \<in> set KEYS" by (simp add: KEYS_def)
  from unknown_genre_falls_back [of "''Blues''" "''C''" "''Major''" "''Happy''" 1 "sconst 0"] a
  have c: "select_progression ''Blues'' = Inr [''I'', ''IV'', ''V'', ''I'']"
    by blast
  from unknown_genre_falls_back [of "''Pop''" "''C''" "''Major''" "''Happy''" 1 "sconst 0"] b
  have d: "select_progression ''Pop'' = Inr [''I'', ''V'', ''vi'', ''IV'']"
    by auto
  from a b c d k show ?thesis by blast
qed












end
